theory Spec2Isabelle
  imports Main "HOL-Library.Sublist"
begin

section \<open>Python values and strings\<close>

text \<open>
  A Python \<open>str\<close> is a sequence of Unicode code points; slicing (\<open>s[:200]\<close>) and
  \<open>str.strip\<close> count and classify code points, so a string is modelled as a list of
  code points. \<open>lit\<close> turns an ASCII literal into such a list.
\<close>

type_synonym pystr = "nat list"

definition lit :: "string \<Rightarrow> pystr" where
  "lit s = map of_char s"

text \<open>
  A spreadsheet cell as \<open>app.py\<close> sees it: a string, a missing value (NaN, None or NaT,
  for which \<open>pd.isna\<close> is true), or any other scalar (a number, a timestamp), of which
  only the \<open>str()\<close> rendering is ever used.
\<close>

datatype pyval = Str pystr | Missing | Other pystr

fun isinstance_str :: "pyval \<Rightarrow> bool" where
  "isinstance_str (Str s) = True"
| "isinstance_str Missing = False"
| "isinstance_str (Other r) = False"

fun isna :: "pyval \<Rightarrow> bool" where
  "isna (Str s) = False"
| "isna Missing = True"
| "isna (Other r) = False"

fun py_str :: "pyval \<Rightarrow> pystr" where
  "py_str (Str s) = s"
| "py_str Missing = lit ''nan''"
| "py_str (Other r) = r"

text \<open>
  The code points for which \<open>str.isspace\<close> holds; \<open>str.strip()\<close> without argument
  and the regular-expression class \<open>\s\<close> on \<open>str\<close> patterns both use this set.
\<close>

definition isspace :: "nat \<Rightarrow> bool" where
  "isspace c \<longleftrightarrow>
     (9 \<le> c \<and> c \<le> 13) \<or> (28 \<le> c \<and> c \<le> 32) \<or> c = 133 \<or> c = 160 \<or> c = 5760 \<or>
     (8192 \<le> c \<and> c \<le> 8202) \<or> c = 8232 \<or> c = 8233 \<or> c = 8239 \<or> c = 8287 \<or>
     c = 12288"

definition strip :: "pystr \<Rightarrow> pystr" where
  "strip s = rev (dropWhile isspace (rev (dropWhile isspace s)))"

text \<open>
  \<open>str.replace(old, new)\<close>: the non-overlapping occurrences of \<open>old\<close>, found from
  left to right, are replaced. With an empty \<open>old\<close> Python inserts \<open>new\<close> before every
  character and at the end.
\<close>

fun replace_from :: "pystr \<Rightarrow> pystr \<Rightarrow> pystr \<Rightarrow> pystr" where
  "replace_from old new [] = []"
| "replace_from old new (c # cs) =
     (if prefix old (c # cs) then new @ replace_from old new (drop (length old - 1) cs)
      else c # replace_from old new cs)"

definition replace :: "pystr \<Rightarrow> pystr \<Rightarrow> pystr \<Rightarrow> pystr" where
  "replace old new s =
     (if old = [] then new @ concat (map (\<lambda>c. c # new) s) else replace_from old new s)"

text \<open>\<open>sub in s\<close> on strings.\<close>

fun str_contains :: "pystr \<Rightarrow> pystr \<Rightarrow> bool" where
  "str_contains sub [] = (sub = [])"
| "str_contains sub (c # cs) = (prefix sub (c # cs) \<or> str_contains sub cs)"

section \<open>Filename sanitizer\<close>

text \<open>
  The character class of the pattern in \<open>sanitize_filename\<close>: the nine characters
  less-than (60), greater-than (62), colon (58), double quote (34), slash (47),
  backslash (92), vertical bar (124), question mark (63) and asterisk (42).
  The replacement character is the underscore (95).
\<close>

definition invalid_char :: "nat \<Rightarrow> bool" where
  "invalid_char c \<longleftrightarrow> c \<in> set [60, 62, 58, 34, 47, 92, 124, 63, 42]"

definition re_sub_invalid :: "pystr \<Rightarrow> pystr" where
  "re_sub_invalid s = map (\<lambda>c. if invalid_char c then 95 else c) s"

fun sanitize_filename :: "pyval \<Rightarrow> pystr" where
  "sanitize_filename (Str s) =
     take 200 (re_sub_invalid
       (replace (lit ''http://'') [] (replace (lit ''https://'') [] (strip s))))"
| "sanitize_filename v = lit ''Untitled''"

section \<open>Identifier extractor\<close>

text \<open>
  \<open>re.search\<close> with the pattern \<open>https://docs\.google\.com/document/d/([a-zA-Z0-9-_]+)\<close>:
  the leftmost position where the fixed prefix is followed by at least one character of
  the class; group 1 is the longest run of such characters.
\<close>

definition id_char :: "nat \<Rightarrow> bool" where
  "id_char c \<longleftrightarrow>
     (97 \<le> c \<and> c \<le> 122) \<or> (65 \<le> c \<and> c \<le> 90) \<or> (48 \<le> c \<and> c \<le> 57) \<or> c = 45 \<or> c = 95"

definition doc_prefix :: pystr where
  "doc_prefix = lit ''https://docs.google.com/document/d/''"

fun re_search_file_id :: "pystr \<Rightarrow> pystr option" where
  "re_search_file_id [] = None"
| "re_search_file_id (c # cs) =
     (if prefix doc_prefix (c # cs) \<and>
         takeWhile id_char (drop (length doc_prefix) (c # cs)) \<noteq> []
      then Some (takeWhile id_char (drop (length doc_prefix) (c # cs)))
      else re_search_file_id cs)"

definition extract_file_id :: "pyval \<Rightarrow> pystr option" where
  "extract_file_id doc_url =
     (if \<not> isinstance_str doc_url \<or> isna doc_url then None
      else re_search_file_id (py_str doc_url))"

section \<open>The outside world\<close>

text \<open>
  What one HTTP GET can do: deliver a response with a status code and a body, deliver
  the status line and then break while the body is read (a \<open>RequestException\<close> raised
  after the given part of the body), or raise a \<open>RequestException\<close> (timeout,
  connection error, invalid URL) before any response.
\<close>

datatype http_result = Response int "nat list" | Truncated int "nat list" | RequestException

text \<open>A page of an opened document: the \<open>uri\<close> entry of each link dictionary of
  \<open>page.get_links()\<close> (\<open>None\<close> when the dictionary has no such key), and the plain
  text of \<open>page.get_text("text")\<close>.\<close>

record page =
  get_links :: "pystr option list"
  get_text :: pystr

text \<open>
  The libraries and the network are parameters of the model: \<open>http_get env n url\<close> is
  what the \<open>n\<close>-th HTTP request of the run returns when it asks for \<open>url\<close>;
  \<open>fitz_open env data\<close> is the page list \<open>fitz.open\<close> reads from a file with
  contents \<open>data\<close>, or \<open>None\<close> when it raises; \<open>soup_text_lower env body\<close> is
  \<open>BeautifulSoup(response.text, "html.parser").text.lower()\<close>; \<open>fs_writable env name\<close>
  tells whether \<open>open(name, "wb")\<close> succeeds in the working directory (it raises
  \<open>OSError\<close> for a name the file system refuses, such as one that is too long).
\<close>

record env =
  http_get :: "nat \<Rightarrow> pystr \<Rightarrow> http_result"
  fitz_open :: "nat list \<Rightarrow> page list option"
  soup_text_lower :: "nat list \<Rightarrow> pystr"
  fs_writable :: "pystr \<Rightarrow> bool"

text \<open>The state the program changes: the number of HTTP requests issued so far and the
  files of the working directory.\<close>

record world =
  requests :: nat
  files :: "pystr \<rightharpoonup> nat list"

datatype error = UnboundLocalError | FileNotFoundError | FileDataError | OSError

definition os_remove :: "world \<Rightarrow> pystr \<Rightarrow> error + world" where
  "os_remove w path =
     (if files w path = None then Inl FileNotFoundError
      else Inr (w\<lparr>files := (files w)(path := None)\<rparr>))"

section \<open>Document fetcher\<close>

definition export_url :: "pystr \<Rightarrow> pystr" where
  "export_url file_id =
     lit ''https://docs.google.com/document/d/'' @ file_id @ lit ''/export?format=pdf''"

text \<open>
  The \<open>while retry_count < max_retries\<close> loop of \<open>download_pdf\<close>. With
  \<open>stream=True\<close> the status is read before the body: a 200 response opens the file for
  writing and copies the chunks, so a stream that breaks leaves the part written so far
  in the file before the exception handler counts a retry. The handler catches
  \<open>RequestException\<close> only: when \<open>open\<close> refuses the file name, its \<open>OSError\<close>
  leaves the function.
\<close>

function download_loop ::
  "env \<Rightarrow> pystr \<Rightarrow> pystr \<Rightarrow> int \<Rightarrow> int \<Rightarrow> world \<Rightarrow> (error + pystr option) \<times> world" where
  "download_loop env pdf_url pdf_filename max_retries retry_count w =
     (if retry_count < max_retries then
        (case http_get env (requests w) pdf_url of
           Response status_code body \<Rightarrow>
             if status_code = 200
             then (if fs_writable env pdf_filename
                   then (Inr (Some pdf_filename),
                         w\<lparr>requests := requests w + 1,
                           files := (files w)(pdf_filename \<mapsto> body)\<rparr>)
                   else (Inl OSError, w\<lparr>requests := requests w + 1\<rparr>))
             else (Inr None, w\<lparr>requests := requests w + 1\<rparr>)
         | Truncated status_code part \<Rightarrow>
             if status_code = 200
             then (if fs_writable env pdf_filename
                   then download_loop env pdf_url pdf_filename max_retries (retry_count + 1)
                          (w\<lparr>requests := requests w + 1,
                            files := (files w)(pdf_filename \<mapsto> part)\<rparr>)
                   else (Inl OSError, w\<lparr>requests := requests w + 1\<rparr>))
             else (Inr None, w\<lparr>requests := requests w + 1\<rparr>)
         | RequestException \<Rightarrow>
             download_loop env pdf_url pdf_filename max_retries (retry_count + 1)
               (w\<lparr>requests := requests w + 1\<rparr>))
      else (Inr None, w))"
  by pat_completeness auto
termination
  by (relation "measure (\<lambda>(env, pdf_url, pdf_filename, max_retries, retry_count, w).
        nat (max_retries - retry_count))") auto

definition download_pdf ::
  "env \<Rightarrow> world \<Rightarrow> pystr \<Rightarrow> pyval \<Rightarrow> int \<Rightarrow> (error + pystr option) \<times> world" where
  "download_pdf env w file_id file_name max_retries =
     download_loop env (export_url file_id) (sanitize_filename file_name @ lit ''.pdf'')
       max_retries 0 w"

text \<open>The default of the \<open>max_retries\<close> parameter.\<close>

definition default_max_retries :: int where
  "default_max_retries = 3"

text \<open>
  Two ways an attempt of \<open>download_pdf\<close> can fail. It raises a \<open>RequestException\<close>
  when no response comes or when the body of a 200 response breaks while it is copied
  into the opened file; it is refused when a response comes with a status other than
  200, whose body is never read.
\<close>

fun fetch_raises :: "env \<Rightarrow> pystr \<Rightarrow> http_result \<Rightarrow> bool" where
  "fetch_raises env pdf_filename (Response status_code body) = False"
| "fetch_raises env pdf_filename (Truncated status_code part) =
     (status_code = 200 \<and> fs_writable env pdf_filename)"
| "fetch_raises env pdf_filename RequestException = True"

fun fetch_refused :: "http_result \<Rightarrow> bool" where
  "fetch_refused (Response status_code body) = (status_code \<noteq> 200)"
| "fetch_refused (Truncated status_code part) = (status_code \<noteq> 200)"
| "fetch_refused RequestException = False"

section \<open>Editorial classifier\<close>

datatype verdict = Editorial_Use_Only | Not_Editorial | Failed_to_retrieve | Error_fetching

text \<open>
  \<open>requests.get\<close> without \<open>stream\<close> reads the whole body, so a stream that breaks
  raises inside the \<open>try\<close> block, whatever the status.
\<close>

definition check_editorial_use :: "env \<Rightarrow> world \<Rightarrow> pystr \<Rightarrow> verdict \<times> world" where
  "check_editorial_use env w image_url =
     (case http_get env (requests w) image_url of
        Response status_code body \<Rightarrow>
          if status_code \<noteq> 200 then (Failed_to_retrieve, w\<lparr>requests := requests w + 1\<rparr>)
          else if str_contains (lit ''editorial use only'') (soup_text_lower env body)
          then (Editorial_Use_Only, w\<lparr>requests := requests w + 1\<rparr>)
          else (Not_Editorial, w\<lparr>requests := requests w + 1\<rparr>)
      | Truncated status_code part \<Rightarrow> (Error_fetching, w\<lparr>requests := requests w + 1\<rparr>)
      | RequestException \<Rightarrow> (Error_fetching, w\<lparr>requests := requests w + 1\<rparr>))"

section \<open>Link extractor\<close>

text \<open>
  \<open>url_pattern.findall(text)\<close> for \<open>https?://[^\s]+\<close>: scanning from the left, a match
  starts where \<open>https://\<close> or \<open>http://\<close> is followed by a non-space character, runs to
  the next space character or the end, and the scan resumes behind it.
\<close>

definition scheme_len :: "pystr \<Rightarrow> nat option" where
  "scheme_len s =
     (if prefix (lit ''https://'') s then Some 8
      else if prefix (lit ''http://'') s then Some 7 else None)"

function findall_url :: "pystr \<Rightarrow> pystr list" where
  "findall_url [] = []"
| "findall_url (c # cs) =
     (case scheme_len (c # cs) of
        None \<Rightarrow> findall_url cs
      | Some n \<Rightarrow>
          if takeWhile (\<lambda>x. \<not> isspace x) (drop (n - 1) cs) = [] then findall_url cs
          else (take n (c # cs) @ takeWhile (\<lambda>x. \<not> isspace x) (drop (n - 1) cs))
               # findall_url (dropWhile (\<lambda>x. \<not> isspace x) (drop (n - 1) cs)))"
  by pat_completeness auto
termination
proof (relation "measure length")
  show "wf (measure length)" by simp
next
  fix c :: nat and cs :: pystr
  show "(cs, c # cs) \<in> measure length" by simp
next
  fix c :: nat and cs :: pystr and n :: nat
  show "(cs, c # cs) \<in> measure length" by simp
next
  fix c :: nat and cs :: pystr and n :: nat
  have "length (dropWhile (\<lambda>x. \<not> isspace x) (drop (n - 1) cs)) \<le> length (drop (n - 1) cs)"
    by (rule length_dropWhile_le)
  then show "(dropWhile (\<lambda>x. \<not> isspace x) (drop (n - 1) cs), c # cs) \<in> measure length"
    by simp
qed

text \<open>The loop over \<open>page.get_links()\<close>: every link with a \<open>uri\<close> is classified.\<close>

fun check_links :: "env \<Rightarrow> world \<Rightarrow> pystr option list \<Rightarrow> pystr list \<Rightarrow> pystr list \<times> world" where
  "check_links env w [] editorial_links = (editorial_links, w)"
| "check_links env w (None # ls) editorial_links = check_links env w ls editorial_links"
| "check_links env w (Some url # ls) editorial_links =
     (case check_editorial_use env w url of
        (editorial_status, w1) \<Rightarrow>
          if editorial_status = Editorial_Use_Only
          then check_links env w1 ls (editorial_links @ [url])
          else check_links env w1 ls editorial_links)"

text \<open>The loop over \<open>found_links\<close>: only a match that contains \<open>123rf\<close> is classified.\<close>

fun check_found :: "env \<Rightarrow> world \<Rightarrow> pystr list \<Rightarrow> pystr list \<Rightarrow> pystr list \<times> world" where
  "check_found env w [] editorial_links = (editorial_links, w)"
| "check_found env w (url # us) editorial_links =
     (if str_contains (lit ''123rf'') url then
        (case check_editorial_use env w url of
           (editorial_status, w1) \<Rightarrow>
             if editorial_status = Editorial_Use_Only
             then check_found env w1 us (editorial_links @ [url])
             else check_found env w1 us editorial_links)
      else check_found env w us editorial_links)"

fun scan_pages :: "env \<Rightarrow> world \<Rightarrow> page list \<Rightarrow> pystr list \<Rightarrow> pystr list \<times> world" where
  "scan_pages env w [] editorial_links = (editorial_links, w)"
| "scan_pages env w (p # ps) editorial_links =
     (case check_links env w (get_links p) editorial_links of
        (links1, w1) \<Rightarrow>
          (case check_found env w1 (findall_url (get_text p)) links1 of
             (links2, w2) \<Rightarrow> scan_pages env w2 ps links2))"

definition extract_editorial_links_from_pdf ::
  "env \<Rightarrow> world \<Rightarrow> pystr \<Rightarrow> (error + pystr list) \<times> world" where
  "extract_editorial_links_from_pdf env w pdf_path =
     (case files w pdf_path of
        None \<Rightarrow> (Inl FileNotFoundError, w)
      | Some data \<Rightarrow>
          (case fitz_open env data of
             None \<Rightarrow> (Inl FileDataError, w)
           | Some doc \<Rightarrow>
               (case scan_pages env w doc [] of
                  (editorial_links, w1) \<Rightarrow> (Inr editorial_links, w1))))"

section \<open>Pipeline orchestrator\<close>

text \<open>
  A data frame as \<open>process_google_docs_from_excel\<close> reads it: the column names, and
  for each row the cells under \<open>Google Docs URL\<close> and \<open>Website URL\<close> (read only after
  the column check has passed; column names are taken to be unique).
\<close>

record row =
  doc_url :: pyval
  website_url :: pyval

record dataframe =
  columns :: "pystr list"
  rows :: "row list"

text \<open>An entry of \<open>results\<close>: the dictionary with the keys \<open>title\<close> and \<open>links\<close>.\<close>

record result_record =
  title :: pystr
  links :: "pystr list"

text \<open>
  The local variables that live across iterations of the row loop. \<open>formatted_title\<close>
  and \<open>editorial_links\<close> are unbound (\<open>None\<close>) until an iteration assigns them;
  reading an unbound local raises \<open>UnboundLocalError\<close>.
\<close>

record locals =
  results :: "result_record list"
  formatted_title :: "pystr option"
  editorial_links :: "pystr list option"

text \<open>The loop \<open>for url in editorial_links\<close> in the branch that reports a row: each
  iteration prints the link and appends the row's dictionary once more.\<close>

fun report_links :: "result_record \<Rightarrow> pystr list \<Rightarrow> result_record list \<Rightarrow> result_record list" where
  "report_links r [] rs = rs"
| "report_links r (url # us) rs = report_links r us (rs @ [r])"

text \<open>One iteration of \<open>for index, row in df.iterrows()\<close>.\<close>

definition process_row :: "env \<Rightarrow> locals \<Rightarrow> world \<Rightarrow> row \<Rightarrow> (error + locals) \<times> world" where
  "process_row env st w r =
     (if isna (doc_url r) \<or> isna (website_url r) then
        (case formatted_title st of
           None \<Rightarrow> (Inl UnboundLocalError, w)
         | Some t \<Rightarrow>
             (case editorial_links st of
                None \<Rightarrow> (Inl UnboundLocalError, w)
              | Some ls \<Rightarrow>
                  (Inr (st\<lparr>results := results st @ [\<lparr>title = t, links = ls\<rparr>]\<rparr>), w)))
      else
        (case extract_file_id (Str (py_str (doc_url r))) of
           None \<Rightarrow> (Inr st, w)
         | Some file_id \<Rightarrow>
             if file_id = [] then (Inr st, w)
             else
               (let safe_file_name = sanitize_filename (website_url r) in
                case download_pdf env w file_id (Str safe_file_name) default_max_retries of
                  (Inl e, w1) \<Rightarrow> (Inl e, w1)
                | (Inr None, w1) \<Rightarrow> (Inr st, w1)
                | (Inr (Some pdf_file), w1) \<Rightarrow>
                    if pdf_file = [] then (Inr st, w1)
                    else
                      (case extract_editorial_links_from_pdf env w1 pdf_file of
                         (Inl e, w2) \<Rightarrow> (Inl e, w2)
                       | (Inr ls, w2) \<Rightarrow>
                           (case os_remove w2 pdf_file of
                              Inl e \<Rightarrow> (Inl e, w2)
                            | Inr w3 \<Rightarrow>
                                if ls \<noteq> [] then
                                  (let t = replace [95] [47] safe_file_name;
                                       rec = \<lparr>title = t, links = ls\<rparr>
                                   in (Inr (st\<lparr>results :=
                                              report_links rec ls (results st @ [rec] @ [rec]),
                                            formatted_title := Some t,
                                            editorial_links := Some ls\<rparr>), w3))
                                else (Inr (st\<lparr>editorial_links := Some ls\<rparr>), w3))))))"

fun process_rows :: "env \<Rightarrow> locals \<Rightarrow> world \<Rightarrow> row list \<Rightarrow> (error + locals) \<times> world" where
  "process_rows env st w [] = (Inr st, w)"
| "process_rows env st w (r # rs) =
     (case process_row env st w r of
        (Inl e, w1) \<Rightarrow> (Inl e, w1)
      | (Inr st1, w1) \<Rightarrow> process_rows env st1 w1 rs)"

definition initial_locals :: locals where
  "initial_locals = \<lparr>results = [], formatted_title = None, editorial_links = None\<rparr>"

text \<open>
  The function returns \<open>None\<close> (a bare \<open>return\<close>) when a required column is missing,
  the list \<open>results\<close> when the loop ends, and raises when an iteration raises.
\<close>

definition process_google_docs_from_excel ::
  "env \<Rightarrow> world \<Rightarrow> dataframe \<Rightarrow> (error + result_record list option) \<times> world" where
  "process_google_docs_from_excel env w df =
     (if lit ''Google Docs URL'' \<notin> set (columns df) \<or> lit ''Website URL'' \<notin> set (columns df)
      then (Inr None, w)
      else
        (case process_rows env initial_locals w (rows df) of
           (Inl e, w1) \<Rightarrow> (Inl e, w1)
         | (Inr st, w1) \<Rightarrow> (Inr (Some (results st)), w1)))"

section \<open>Vocabulary of the properties\<close>

text \<open>
  The candidate links of a document in the order the extractor meets them: page by page,
  on each page the embedded links that carry a \<open>uri\<close> first, then the plain-text
  matches that contain \<open>123rf\<close>.
\<close>

fun uris :: "pystr option list \<Rightarrow> pystr list" where
  "uris [] = []"
| "uris (None # ls) = uris ls"
| "uris (Some url # ls) = url # uris ls"

definition text_candidates :: "pystr \<Rightarrow> pystr list" where
  "text_candidates text = filter (str_contains (lit ''123rf'')) (findall_url text)"

definition page_candidates :: "page \<Rightarrow> pystr list" where
  "page_candidates p = uris (get_links p) @ text_candidates (get_text p)"

definition doc_candidates :: "page list \<Rightarrow> pystr list" where
  "doc_candidates doc = concat (map page_candidates doc)"

text \<open>
  A link is confirmed between two states of the run when one of the requests issued in
  between was the classifier's request for it and the verdict was the editorial marker.
\<close>

definition confirmed :: "env \<Rightarrow> world \<Rightarrow> world \<Rightarrow> pystr \<Rightarrow> bool" where
  "confirmed env w w' url \<longleftrightarrow>
     list_ex (\<lambda>n. fst (check_editorial_use env \<lparr>requests = n, files = Map.empty\<rparr> url)
                    = Editorial_Use_Only) [requests w ..< requests w']"

text \<open>The title under which a row is reported.\<close>

definition display_title :: "row \<Rightarrow> pystr" where
  "display_title r = replace [95] [47] (sanitize_filename (website_url r))"

text \<open>What a row whose extraction returned \<open>ls\<close> does to the local variables: nothing
  is reported for an empty list; otherwise the row's dictionary is appended twice and then
  once more for each link.\<close>

definition emit :: "locals \<Rightarrow> row \<Rightarrow> pystr list \<Rightarrow> locals" where
  "emit st r ls =
     (if ls \<noteq> [] then
        st\<lparr>results := results st @
              replicate (2 + length ls) \<lparr>title = display_title r, links = ls\<rparr>,
           formatted_title := Some (display_title r),
           editorial_links := Some ls\<rparr>
      else st\<lparr>editorial_links := Some ls\<rparr>)"













section \<open>Concrete environments\<close>

text \<open>A document with one page that carries one embedded link and no text.\<close>

definition photo_url :: pystr where
  "photo_url = lit ''https://stockhost.example/photo/1''"

definition one_link_doc :: "page list" where
  "one_link_doc = [\<lparr>get_links = [Some photo_url], get_text = []\<rparr>]"

text \<open>Every request is answered with status 200; every file opens as \<open>one_link_doc\<close>;
  every page text carries the marker.\<close>

definition env_ok :: env where
  "env_ok = \<lparr>http_get = (\<lambda>n url. Response 200 [1, 2, 3]),
             fitz_open = (\<lambda>data. Some one_link_doc),
             soup_text_lower = (\<lambda>body. lit ''for editorial use only''),
             fs_writable = (\<lambda>name. True)\<rparr>"

text \<open>The same, but no file opens as a document.\<close>

definition env_corrupt :: env where
  "env_corrupt = env_ok\<lparr>fitz_open := (\<lambda>data. None)\<rparr>"

text \<open>Every request raises.\<close>

definition env_down :: env where
  "env_down = env_ok\<lparr>http_get := (\<lambda>n url. RequestException)\<rparr>"

text \<open>Every request is answered with status 404.\<close>

definition env_404 :: env where
  "env_404 = env_ok\<lparr>http_get := (\<lambda>n url. Response 404 [])\<rparr>"

definition world0 :: world where
  "world0 = \<lparr>requests = 0, files = Map.empty\<rparr>"

definition good_row :: row where
  "good_row = \<lparr>doc_url = Str (lit ''https://docs.google.com/document/d/ABC123''),
               website_url = Str (lit ''https://site.example/page'')\<rparr>"

definition empty_row :: row where
  "empty_row = \<lparr>doc_url = Missing, website_url = Str (lit ''https://site.example/page'')\<rparr>"

definition frame :: "row list \<Rightarrow> dataframe" where
  "frame rs = \<lparr>columns = [lit ''Google Docs URL'', lit ''Website URL''], rows = rs\<rparr>"

text \<open>A document with one page without embedded links, whose text holds two URLs.\<close>

definition text_doc :: "page list" where
  "text_doc = [\<lparr>get_links = [],
     get_text = lit ''see https://www.123rf.com/photo_1.html and https://other.example/2''\<rparr>]"

definition env_text :: env where
  "env_text = env_ok\<lparr>fitz_open := (\<lambda>data. Some text_doc)\<rparr>"

definition world1 :: world where
  "world1 = \<lparr>requests = 0, files = [lit ''a.pdf'' \<mapsto> [1, 2, 3]]\<rparr>"

text \<open>The record that \<open>good_row\<close> yields in \<open>env_ok\<close>.\<close>

definition good_record :: result_record where
  "good_record = \<lparr>title = lit ''site.example/page'', links = [photo_url]\<rparr>"




definition row_a :: row where
  "row_a = \<lparr>doc_url = Str (lit ''https://docs.google.com/document/d/DOCA/edit''),
            website_url = Str (lit ''https://a.example/x'')\<rparr>"

definition row_bad :: row where
  "row_bad = \<lparr>doc_url = Str (lit ''not a link''), website_url = Str (lit ''https://b.example'')\<rparr>"

definition row_gone :: row where
  "row_gone = \<lparr>doc_url = Str (lit ''https://docs.google.com/document/d/GONE''),
               website_url = Str (lit ''https://g.example'')\<rparr>"

definition row_down :: row where
  "row_down = \<lparr>doc_url = Str (lit ''https://docs.google.com/document/d/DOWN''),
               website_url = Str (lit ''https://d.example'')\<rparr>"

definition row_c :: row where
  "row_c = \<lparr>doc_url = Str (lit ''https://docs.google.com/document/d/DOCC''),
            website_url = Str (lit ''http://c.example/y'')\<rparr>"

definition site_rows :: "row list" where
  "site_rows = [row_a, row_bad, row_gone, row_down, row_c]"





section \<open>Properties of the filename sanitizer\<close>

lemmas string_defs = lit_def strip_def isspace_def replace_def re_sub_invalid_def invalid_char_def

lemma replace_from_absent:
  "x \<in> set old \<Longrightarrow> x \<notin> set s \<Longrightarrow> replace_from old new s = s"
proof (induction s)
  case Nil
  then show ?case by simp
next
  case (Cons c cs)
  have "\<not> prefix old (c # cs)"
  proof
    assume "prefix old (c # cs)"
    then have "set old \<subseteq> set (c # cs)" by (rule set_mono_prefix)
    with Cons.prems show False by blast
  qed
  with Cons show ?case by simp
qed

lemma replace_absent:
  "x \<in> set old \<Longrightarrow> x \<notin> set s \<Longrightarrow> replace old new s = s"
  by (auto simp: replace_def replace_from_absent)

lemma re_sub_invalid_valid: "list_all (\<lambda>c. \<not> invalid_char c) (re_sub_invalid s)"
  by (induction s) (simp_all add: re_sub_invalid_def invalid_char_def)

lemma re_sub_invalid_id:
  "list_all (\<lambda>c. \<not> invalid_char c) s \<Longrightarrow> re_sub_invalid s = s"
  by (induction s) (simp_all add: re_sub_invalid_def)

lemma set_strip: "set (strip s) \<subseteq> set s"
proof -
  have "set (strip s) \<subseteq> set (dropWhile isspace s)"
    unfolding strip_def using set_dropWhileD [of _ isspace "rev (dropWhile isspace s)"] by auto
  also have "\<dots> \<subseteq> set s" using set_dropWhileD [of _ isspace s] by auto
  finally show ?thesis .
qed

lemma length_strip: "length (strip s) \<le> length s"
proof -
  have "length (strip s) \<le> length (dropWhile isspace s)"
    unfolding strip_def using length_dropWhile_le [of isspace "rev (dropWhile isspace s)"] by simp
  also have "\<dots> \<le> length s" by (rule length_dropWhile_le)
  finally show ?thesis .
qed

lemma sanitize_filename_valid: "list_all (\<lambda>c. \<not> invalid_char c) (sanitize_filename v)"
proof (cases v)
  case (Str s)
  have "list_all (\<lambda>c. \<not> invalid_char c) (take 200 (re_sub_invalid u))" for u
    using re_sub_invalid_valid [of u] by (auto simp: list_all_iff dest: in_set_takeD)
  with Str show ?thesis by simp
qed (simp_all add: lit_def invalid_char_def)

lemma sanitize_filename_length: "length (sanitize_filename v) \<le> 200"
  by (cases v) (simp_all add: lit_def)

lemma sanitize_filename_clean:
  assumes "list_all (\<lambda>c. \<not> invalid_char c) t" and "length t \<le> 200"
  shows "sanitize_filename (Str t) = strip t"
proof -
  have valid: "list_all (\<lambda>c. \<not> invalid_char c) (strip t)"
    using assms(1) set_strip [of t] by (auto simp: list_all_iff)
  have "invalid_char 58" by (simp add: invalid_char_def)
  with valid have colon: "58 \<notin> set (strip t)" by (auto simp: list_all_iff)
  have 1: "replace (lit ''https://'') [] (strip t) = strip t"
    by (rule replace_absent [of 58]) (simp_all add: lit_def colon)
  have 2: "replace (lit ''http://'') [] (strip t) = strip t"
    by (rule replace_absent [of 58]) (simp_all add: lit_def colon)
  have 3: "re_sub_invalid (strip t) = strip t" using valid by (rule re_sub_invalid_id)
  have 4: "take 200 (strip t) = strip t" using length_strip [of t] assms(2) by simp
  show ?thesis by (simp add: 1 2 3 4)
qed

text \<open>
  Claim C7, as amended. \<open>sanitize_filename\<close> returns the placeholder \<open>Untitled\<close> for
  a missing value and for any other value that is not a string; for the empty string it
  returns the empty string, since the guard tests the type and \<open>pd.isna\<close> only.
\<close>

theorem sanitize_filename_placeholder:
  "sanitize_filename Missing = lit ''Untitled'' \<and>
   sanitize_filename (Other r) = lit ''Untitled'' \<and>
   sanitize_filename (Str []) = []"
  by (simp add: string_defs)

text \<open>
  Claim C7 as stated fails at the empty string: the result is not the placeholder.
\<close>

theorem sanitize_filename_empty_counterexample:
  "sanitize_filename (Str []) \<noteq> lit ''Untitled''"
  by (simp add: string_defs)

text \<open>
  Claim C8, as amended. Sanitizing a sanitized name strips its leading and trailing
  white space and changes nothing else: a sanitized name has no scheme left to remove
  (it holds no colon), no reserved character and at most 200 characters. So the
  function is idempotent exactly on the inputs whose sanitized name neither starts nor
  ends with white space.
\<close>

theorem sanitize_filename_twice:
  "sanitize_filename (Str (sanitize_filename v)) = strip (sanitize_filename v)"
  by (rule sanitize_filename_clean) (rule sanitize_filename_valid, rule sanitize_filename_length)

text \<open>The amended claim C8 at the label \<open>https:// x\<close>.\<close>

theorem sanitize_filename_twice_witness:
  "sanitize_filename (Str (sanitize_filename (Str (lit ''https:// x'')))) = lit ''x''"
  using sanitize_filename_twice [of "Str (lit ''https:// x'')"] by (simp add: string_defs)

text \<open>
  Claim C8 as stated fails at the label \<open>https:// x\<close>: removing the scheme uncovers a
  leading blank, which only the second application strips.
\<close>

theorem sanitize_filename_idempotent_counterexample:
  "sanitize_filename (Str (sanitize_filename (Str (lit ''https:// x''))))
     \<noteq> sanitize_filename (Str (lit ''https:// x''))"
  by (simp add: string_defs)

section \<open>Properties of the document fetcher\<close>

lemma download_loop_exhausted:
  "(\<And>k. k < nat (max_retries - retry_count) \<Longrightarrow> fetch_raises env pdf_filename (http_get env (requests w + k) pdf_url)) \<Longrightarrow>
   fst (download_loop env pdf_url pdf_filename max_retries retry_count w) = Inr None \<and>
   requests (snd (download_loop env pdf_url pdf_filename max_retries retry_count w))
     = requests w + nat (max_retries - retry_count)"
proof (induction env pdf_url pdf_filename max_retries retry_count w rule: download_loop.induct)
  case (1 env pdf_url pdf_filename max_retries retry_count w)
  show ?case
  proof (cases "retry_count < max_retries")
    case False
    then show ?thesis by (simp add: download_loop.simps)
  next
    case True
    then have pos: "0 < nat (max_retries - retry_count)" by simp
    have step: "nat (max_retries - retry_count) = Suc (nat (max_retries - (retry_count + 1)))"
      using True by simp
    from "1.prems" [OF pos] have r0: "fetch_raises env pdf_filename (http_get env (requests w) pdf_url)" by simp
    have later: "fetch_raises env pdf_filename (http_get env (requests w + 1 + k) pdf_url)"
      if "k < nat (max_retries - (retry_count + 1))" for k
      using "1.prems" [of "Suc k"] that step by simp
    show ?thesis
    proof (cases "http_get env (requests w) pdf_url")
      case (Response status_code body)
      with r0 show ?thesis by simp
    next
      case (Truncated status_code part)
      with r0 have s: "status_code = 200" and wr: "fs_writable env pdf_filename" by simp_all
      have "fst (download_loop env pdf_url pdf_filename max_retries (retry_count + 1)
                 (w\<lparr>requests := requests w + 1, files := (files w)(pdf_filename \<mapsto> part)\<rparr>)) = Inr None \<and>
            requests (snd (download_loop env pdf_url pdf_filename max_retries (retry_count + 1)
                 (w\<lparr>requests := requests w + 1, files := (files w)(pdf_filename \<mapsto> part)\<rparr>)))
              = requests w + 1 + nat (max_retries - (retry_count + 1))"
        using "1.IH"(1) [OF True Truncated s wr] later by simp
      then show ?thesis
        using True Truncated s wr step by (subst (1 2) download_loop.simps) simp
    next
      case RequestException
      have "fst (download_loop env pdf_url pdf_filename max_retries (retry_count + 1)
                 (w\<lparr>requests := requests w + 1\<rparr>)) = Inr None \<and>
            requests (snd (download_loop env pdf_url pdf_filename max_retries (retry_count + 1)
                 (w\<lparr>requests := requests w + 1\<rparr>)))
              = requests w + 1 + nat (max_retries - (retry_count + 1))"
        using "1.IH"(2) [OF True RequestException] later by simp
      then show ?thesis
        using True RequestException step by (subst (1 2) download_loop.simps) simp
    qed
  qed
qed


lemma download_loop_refused:
  "k < nat (max_retries - retry_count) \<Longrightarrow>
   (\<And>j. j < k \<Longrightarrow> fetch_raises env pdf_filename (http_get env (requests w + j) pdf_url)) \<Longrightarrow>
   fetch_refused (http_get env (requests w + k) pdf_url) \<Longrightarrow>
   fst (download_loop env pdf_url pdf_filename max_retries retry_count w) = Inr None \<and>
   requests (snd (download_loop env pdf_url pdf_filename max_retries retry_count w))
     = requests w + k + 1"
proof (induction k arbitrary: retry_count w)
  case 0
  then have lt: "retry_count < max_retries" by simp
  from 0 have "fetch_refused (http_get env (requests w) pdf_url)" by simp
  then show ?case
    using lt by (cases "http_get env (requests w) pdf_url") (simp_all add: download_loop.simps)
next
  case (Suc k)
  then have lt: "retry_count < max_retries" by simp
  have k: "k < nat (max_retries - (retry_count + 1))" using Suc.prems(1) by simp
  have r0: "fetch_raises env pdf_filename (http_get env (requests w) pdf_url)"
    using Suc.prems(2) [of 0] by simp
  have IH: "fst (download_loop env pdf_url pdf_filename max_retries (retry_count + 1) w1) = Inr None \<and>
        requests (snd (download_loop env pdf_url pdf_filename max_retries (retry_count + 1) w1))
          = requests w + Suc k + 1"
    if "requests w1 = requests w + 1" for w1
  proof -
    have a: "fetch_raises env pdf_filename (http_get env (requests w1 + j) pdf_url)" if "j < k" for j
      using Suc.prems(2) [of "Suc j"] that \<open>requests w1 = requests w + 1\<close> by simp
    have b: "fetch_refused (http_get env (requests w1 + k) pdf_url)"
      using Suc.prems(3) \<open>requests w1 = requests w + 1\<close> by simp
    show ?thesis using Suc.IH [OF k a b] \<open>requests w1 = requests w + 1\<close> by simp
  qed
  show ?case
  proof (cases "http_get env (requests w) pdf_url")
    case (Response status_code body)
    with r0 show ?thesis by simp
  next
    case (Truncated status_code part)
    with r0 have s: "status_code = 200" and wr: "fs_writable env pdf_filename" by simp_all
    show ?thesis
      using lt Truncated s wr
        IH [of "w\<lparr>requests := requests w + 1, files := (files w)(pdf_filename \<mapsto> part)\<rparr>"]
      by (subst (1 2) download_loop.simps) simp
  next
    case RequestException
    show ?thesis
      using lt RequestException IH [of "w\<lparr>requests := requests w + 1\<rparr>"]
      by (subst (1 2) download_loop.simps) simp
  qed
qed

lemma download_loop_refused_files:
  "retry_count < max_retries \<Longrightarrow> fetch_refused (http_get env (requests w) pdf_url) \<Longrightarrow>
   files (snd (download_loop env pdf_url pdf_filename max_retries retry_count w)) = files w"
  by (cases "http_get env (requests w) pdf_url") (simp_all add: download_loop.simps)

lemma download_loop_success:
  "download_loop env pdf_url pdf_filename max_retries retry_count w = (Inr (Some p), w') \<Longrightarrow>
   p = pdf_filename \<and> requests w < requests w' \<and> fs_writable env pdf_filename \<and>
   (\<exists>body. http_get env (requests w' - 1) pdf_url = Response 200 body \<and>
           files w' = (files w)(pdf_filename \<mapsto> body))"
proof (induction env pdf_url pdf_filename max_retries retry_count w rule: download_loop.induct)
  case (1 env pdf_url pdf_filename max_retries retry_count w)
  from "1.prems" have lt: "retry_count < max_retries"
    by (subst (asm) download_loop.simps) (simp split: if_splits)
  show ?case
  proof (cases "http_get env (requests w) pdf_url")
    case (Response status_code body)
    from "1.prems" lt Response have s: "status_code = 200"
      by (subst (asm) download_loop.simps) (simp split: if_splits)
    from "1.prems" lt Response s have wr: "fs_writable env pdf_filename"
      by (subst (asm) download_loop.simps) (simp split: if_splits)
    from "1.prems" lt Response s wr
    have "p = pdf_filename"
      and "w' = w\<lparr>requests := requests w + 1, files := (files w)(pdf_filename \<mapsto> body)\<rparr>"
      by (subst (asm) download_loop.simps, simp)+
    with Response s wr show ?thesis by simp
  next
    case (Truncated status_code part)
    with "1.prems" lt have s: "status_code = 200"
      by (subst (asm) download_loop.simps) (auto split: if_splits)
    from "1.prems" lt Truncated s have wr: "fs_writable env pdf_filename"
      by (subst (asm) download_loop.simps) (simp split: if_splits)
    from "1.prems" lt Truncated s wr
    have "download_loop env pdf_url pdf_filename max_retries (retry_count + 1)
            (w\<lparr>requests := requests w + 1, files := (files w)(pdf_filename \<mapsto> part)\<rparr>)
          = (Inr (Some p), w')"
      by (subst (asm) download_loop.simps) simp
    from "1.IH"(1) [OF lt Truncated s wr this] show ?thesis by (auto simp: fun_eq_iff)
  next
    case RequestException
    from "1.prems" lt RequestException
    have "download_loop env pdf_url pdf_filename max_retries (retry_count + 1)
            (w\<lparr>requests := requests w + 1\<rparr>) = (Inr (Some p), w')"
      by (subst (asm) download_loop.simps) simp
    from "1.IH"(2) [OF lt RequestException this] show ?thesis by (auto simp: fun_eq_iff)
  qed
qed


lemmas env_defs = env_ok_def env_corrupt_def env_down_def env_404_def world0_def

text \<open>
  Claim C6. A response with a status other than 200 ends \<open>download_pdf\<close> with the
  failure result at once: when it answers the first attempt, exactly one request has
  been issued and no file is touched; when it follows \<open>k\<close> attempts that raised,
  exactly \<open>k + 1\<close> requests have been issued. When every attempt raises, the function
  issues exactly \<open>max_retries\<close> requests and then returns the failure result; with the
  default bound that is three requests.
\<close>

theorem download_pdf_retry:
  "(k < nat max_retries \<and>
    (\<forall>j<k. fetch_raises env (sanitize_filename file_name @ lit ''.pdf'') (http_get env (requests w + j) (export_url file_id))) \<and>
    fetch_refused (http_get env (requests w + k) (export_url file_id)) \<longrightarrow>
      fst (download_pdf env w file_id file_name max_retries) = Inr None \<and>
      requests (snd (download_pdf env w file_id file_name max_retries)) = requests w + k + 1) \<and>
   (0 < max_retries \<and> fetch_refused (http_get env (requests w) (export_url file_id)) \<longrightarrow>
      fst (download_pdf env w file_id file_name max_retries) = Inr None \<and>
      requests (snd (download_pdf env w file_id file_name max_retries)) = requests w + 1 \<and>
      files (snd (download_pdf env w file_id file_name max_retries)) = files w) \<and>
   ((\<forall>j<nat max_retries. fetch_raises env (sanitize_filename file_name @ lit ''.pdf'') (http_get env (requests w + j) (export_url file_id))) \<longrightarrow>
      fst (download_pdf env w file_id file_name max_retries) = Inr None \<and>
      requests (snd (download_pdf env w file_id file_name max_retries))
        = requests w + nat max_retries) \<and>
   ((\<forall>j<3. fetch_raises env (sanitize_filename file_name @ lit ''.pdf'') (http_get env (requests w + j) (export_url file_id))) \<longrightarrow>
      fst (download_pdf env w file_id file_name default_max_retries) = Inr None \<and>
      requests (snd (download_pdf env w file_id file_name default_max_retries)) = requests w + 3)"
proof (intro conjI impI)
  assume a: "k < nat max_retries \<and>
    (\<forall>j<k. fetch_raises env (sanitize_filename file_name @ lit ''.pdf'') (http_get env (requests w + j) (export_url file_id))) \<and>
    fetch_refused (http_get env (requests w + k) (export_url file_id))"
  then have k: "k < nat (max_retries - 0)" by simp
  from a download_loop_refused [where env = env and w = w and pdf_url = "export_url file_id"
      and pdf_filename = "sanitize_filename file_name @ lit ''.pdf''", OF k]
  have r: "fst (download_pdf env w file_id file_name max_retries) = Inr None \<and>
      requests (snd (download_pdf env w file_id file_name max_retries)) = requests w + k + 1"
    by (simp add: download_pdf_def)
  from r show "fst (download_pdf env w file_id file_name max_retries) = Inr None" ..
  from r show "requests (snd (download_pdf env w file_id file_name max_retries)) = requests w + k + 1" ..
next
  assume a: "0 < max_retries \<and> fetch_refused (http_get env (requests w) (export_url file_id))"
  then have k: "0 < nat (max_retries - 0)" by simp
  from a download_loop_refused [where env = env and w = w and pdf_url = "export_url file_id"
      and pdf_filename = "sanitize_filename file_name @ lit ''.pdf''", OF k]
  have r: "fst (download_pdf env w file_id file_name max_retries) = Inr None \<and>
      requests (snd (download_pdf env w file_id file_name max_retries)) = requests w + 1"
    by (simp add: download_pdf_def)
  from r show "fst (download_pdf env w file_id file_name max_retries) = Inr None" ..
  from r show "requests (snd (download_pdf env w file_id file_name max_retries)) = requests w + 1" ..
  from a show "files (snd (download_pdf env w file_id file_name max_retries)) = files w"
    unfolding download_pdf_def by (intro download_loop_refused_files) simp_all
next
  assume a: "\<forall>j<nat max_retries. fetch_raises env (sanitize_filename file_name @ lit ''.pdf'') (http_get env (requests w + j) (export_url file_id))"
  from a download_loop_exhausted [where env = env and w = w and pdf_url = "export_url file_id"
      and pdf_filename = "sanitize_filename file_name @ lit ''.pdf''"
      and max_retries = max_retries and retry_count = 0]
  have r: "fst (download_pdf env w file_id file_name max_retries) = Inr None \<and>
      requests (snd (download_pdf env w file_id file_name max_retries)) = requests w + nat max_retries"
    by (simp add: download_pdf_def)
  from r show "fst (download_pdf env w file_id file_name max_retries) = Inr None" ..
  from r show "requests (snd (download_pdf env w file_id file_name max_retries))
        = requests w + nat max_retries" ..
next
  assume a: "\<forall>j<3. fetch_raises env (sanitize_filename file_name @ lit ''.pdf'') (http_get env (requests w + j) (export_url file_id))"
  from a download_loop_exhausted [where env = env and w = w and pdf_url = "export_url file_id"
      and pdf_filename = "sanitize_filename file_name @ lit ''.pdf''"
      and max_retries = 3 and retry_count = 0]
  have r: "fst (download_pdf env w file_id file_name default_max_retries) = Inr None \<and>
      requests (snd (download_pdf env w file_id file_name default_max_retries)) = requests w + 3"
    by (simp add: download_pdf_def default_max_retries_def)
  from r show "fst (download_pdf env w file_id file_name default_max_retries) = Inr None" ..
  from r show "requests (snd (download_pdf env w file_id file_name default_max_retries))
        = requests w + 3" ..
qed

text \<open>Claim C6 on a server that answers 404 and on a network that is down.\<close>

theorem download_pdf_retry_witness:
  "fst (download_pdf env_404 world0 (lit ''ABC123'') (Str (lit ''x'')) 3) = Inr None \<and>
   requests (snd (download_pdf env_404 world0 (lit ''ABC123'') (Str (lit ''x'')) 3)) = 1 \<and>
   fst (download_pdf env_down world0 (lit ''ABC123'') (Str (lit ''x'')) 3) = Inr None \<and>
   requests (snd (download_pdf env_down world0 (lit ''ABC123'') (Str (lit ''x'')) 3)) = 3"
  using download_pdf_retry [where k = 0 and max_retries = 3 and env = env_404 and w = world0
        and file_id = "lit ''ABC123''" and file_name = "Str (lit ''x'')"]
    download_pdf_retry [where k = 0 and max_retries = 3 and env = env_down and w = world0
        and file_id = "lit ''ABC123''" and file_name = "Str (lit ''x'')"]
  by (simp add: env_defs)

text \<open>
  Claim C10. Whenever \<open>download_pdf\<close> succeeds, the path it returns is the sanitized
  file name followed by \<open>.pdf\<close>, whatever the file-name argument was, and the one file
  it has written is the file of that name, holding the body of the 200 response to the
  last request.
\<close>

theorem download_pdf_sanitizes:
  "download_pdf env w file_id file_name max_retries = (Inr (Some p), w') \<Longrightarrow>
   p = sanitize_filename file_name @ lit ''.pdf'' \<and>
   (\<exists>body. http_get env (requests w' - 1) (export_url file_id) = Response 200 body \<and>
           files w' = (files w)(sanitize_filename file_name @ lit ''.pdf'' \<mapsto> body))"
  using download_loop_success [of env "export_url file_id"
      "sanitize_filename file_name @ lit ''.pdf''" max_retries 0 w p w']
  by (simp add: download_pdf_def)

text \<open>Claim C10 on a label that still carries its scheme and a slash.\<close>

theorem download_pdf_sanitizes_witness:
  "download_pdf env_ok world0 (lit ''ABC123'') (Str (lit ''https://site.example/page'')) 3
     = (Inr (Some (lit ''site.example_page.pdf'')),
        \<lparr>requests = 1, files = [lit ''site.example_page.pdf'' \<mapsto> [1, 2, 3]]\<rparr>) \<and>
   lit ''site.example_page.pdf''
     = sanitize_filename (Str (lit ''https://site.example/page'')) @ lit ''.pdf''"
proof -
  have run: "download_pdf env_ok world0 (lit ''ABC123'') (Str (lit ''https://site.example/page'')) 3
     = (Inr (Some (lit ''site.example_page.pdf'')),
        \<lparr>requests = 1, files = [lit ''site.example_page.pdf'' \<mapsto> [1, 2, 3]]\<rparr>)"
    by (simp add: download_pdf_def download_loop.simps env_defs string_defs)
  from download_pdf_sanitizes [OF run] run show ?thesis by simp
qed

section \<open>Properties of the link extractor\<close>

lemma check_editorial_use_world:
  "check_editorial_use env w url = (v, w') \<Longrightarrow>
   files w' = files w \<and> requests w' = requests w + 1 \<and>
   fst (check_editorial_use env \<lparr>requests = requests w, files = Map.empty\<rparr> url) = v"
  by (auto simp: check_editorial_use_def split: http_result.splits if_splits)

lemma confirmed_iff:
  "confirmed env w w' url \<longleftrightarrow>
     (\<exists>n. requests w \<le> n \<and> n < requests w' \<and>
          fst (check_editorial_use env \<lparr>requests = n, files = Map.empty\<rparr> url) = Editorial_Use_Only)"
  by (auto simp: confirmed_def list_ex_iff)

lemma confirmed_mono:
  "confirmed env w1 w2 url \<Longrightarrow> requests w \<le> requests w1 \<Longrightarrow> requests w2 \<le> requests w' \<Longrightarrow>
   confirmed env w w' url"
  unfolding confirmed_iff by (meson le_trans less_le_trans)

lemma check_links_result:
  "check_links env w ls acc = (acc', w') \<Longrightarrow>
   files w' = files w \<and> requests w \<le> requests w' \<and>
   (\<exists>new. acc' = acc @ new \<and> subseq new (uris ls) \<and>
          (\<forall>u\<in>set new. confirmed env w w' u))"
proof (induction env w ls acc arbitrary: acc' w' rule: check_links.induct)
  case (1 env w editorial_links)
  then show ?case by simp
next
  case (2 env w ls editorial_links)
  then show ?case by simp
next
  case (3 env w url ls editorial_links)
  obtain v w1 where c: "check_editorial_use env w url = (v, w1)" by force
  note cw = check_editorial_use_world [OF c]
  show ?case
  proof (cases "v = Editorial_Use_Only")
    case True
    with "3.prems" c have run: "check_links env w1 ls (editorial_links @ [url]) = (acc', w')" by simp
    from "3.IH"(1) [OF c [symmetric] True run] obtain new where
      f: "files w' = files w1" and r: "requests w1 \<le> requests w'" and
      a: "acc' = (editorial_links @ [url]) @ new" and s: "subseq new (uris ls)" and
      k: "\<forall>u\<in>set new. confirmed env w1 w' u" by blast
    have "confirmed env w w1 url" unfolding confirmed_iff using cw True by auto
    then have "confirmed env w w' url" using r confirmed_mono [of env w w1 url w w'] by simp
    moreover have "\<forall>u\<in>set new. confirmed env w w' u"
      using k cw by (auto intro: confirmed_mono)
    ultimately show ?thesis using f r a s cw by auto
  next
    case False
    with "3.prems" c have run: "check_links env w1 ls editorial_links = (acc', w')" by simp
    from "3.IH"(2) [OF c [symmetric] False run] obtain new where
      f: "files w' = files w1" and r: "requests w1 \<le> requests w'" and
      a: "acc' = editorial_links @ new" and s: "subseq new (uris ls)" and
      k: "\<forall>u\<in>set new. confirmed env w1 w' u" by blast
    have "\<forall>u\<in>set new. confirmed env w w' u"
      using k cw by (auto intro: confirmed_mono)
    then show ?thesis using f r a s cw by auto
  qed
qed

lemma check_found_result:
  "check_found env w us acc = (acc', w') \<Longrightarrow>
   files w' = files w \<and> requests w \<le> requests w' \<and>
   (\<exists>new. acc' = acc @ new \<and> subseq new (filter (str_contains (lit ''123rf'')) us) \<and>
          (\<forall>u\<in>set new. confirmed env w w' u))"
proof (induction env w us acc arbitrary: acc' w' rule: check_found.induct)
  case (1 env w editorial_links)
  then show ?case by simp
next
  case (2 env w url us editorial_links)
  show ?case
  proof (cases "str_contains (lit ''123rf'') url")
    case no: False
    with "2.prems" have run: "check_found env w us editorial_links = (acc', w')" by simp
    from "2.IH"(3) [OF no run] no show ?thesis by simp
  next
    case yes: True
    obtain v w1 where c: "check_editorial_use env w url = (v, w1)" by force
    note cw = check_editorial_use_world [OF c]
    show ?thesis
    proof (cases "v = Editorial_Use_Only")
      case True
      with "2.prems" c yes have run: "check_found env w1 us (editorial_links @ [url]) = (acc', w')"
        by simp
      from "2.IH"(1) [OF yes c [symmetric] True run] obtain new where
        f: "files w' = files w1" and r: "requests w1 \<le> requests w'" and
        a: "acc' = (editorial_links @ [url]) @ new" and
        s: "subseq new (filter (str_contains (lit ''123rf'')) us)" and
        k: "\<forall>u\<in>set new. confirmed env w1 w' u" by blast
      have "confirmed env w w1 url" unfolding confirmed_iff using cw True by auto
      then have "confirmed env w w' url" using r confirmed_mono [of env w w1 url w w'] by simp
      moreover have "\<forall>u\<in>set new. confirmed env w w' u"
        using k cw by (auto intro: confirmed_mono)
      ultimately show ?thesis using f r a s cw yes by auto
    next
      case False
      with "2.prems" c yes have run: "check_found env w1 us editorial_links = (acc', w')" by simp
      from "2.IH"(2) [OF yes c [symmetric] False run] obtain new where
        f: "files w' = files w1" and r: "requests w1 \<le> requests w'" and
        a: "acc' = editorial_links @ new" and
        s: "subseq new (filter (str_contains (lit ''123rf'')) us)" and
        k: "\<forall>u\<in>set new. confirmed env w1 w' u" by blast
      have "\<forall>u\<in>set new. confirmed env w w' u"
        using k cw by (auto intro: confirmed_mono)
      then show ?thesis using f r a s cw yes by auto
    qed
  qed
qed

lemma scan_pages_result:
  "scan_pages env w doc acc = (acc', w') \<Longrightarrow>
   files w' = files w \<and> requests w \<le> requests w' \<and>
   (\<exists>new. acc' = acc @ new \<and> subseq new (doc_candidates doc) \<and>
          (\<forall>u\<in>set new. confirmed env w w' u))"
proof (induction env w doc acc arbitrary: acc' w' rule: scan_pages.induct)
  case (1 env w editorial_links)
  then show ?case by (simp add: doc_candidates_def)
next
  case (2 env w p ps editorial_links)
  obtain links1 w1 where c1: "check_links env w (get_links p) editorial_links = (links1, w1)"
    by force
  obtain links2 w2 where c2: "check_found env w1 (findall_url (get_text p)) links1 = (links2, w2)"
    by force
  from "2.prems" c1 c2 have run: "scan_pages env w2 ps links2 = (acc', w')" by simp
  from check_links_result [OF c1] obtain n1 where
    f1: "files w1 = files w" and r1: "requests w \<le> requests w1" and
    a1: "links1 = editorial_links @ n1" and s1: "subseq n1 (uris (get_links p))" and
    k1: "\<forall>u\<in>set n1. confirmed env w w1 u" by blast
  from check_found_result [OF c2] obtain n2 where
    f2: "files w2 = files w1" and r2: "requests w1 \<le> requests w2" and
    a2: "links2 = links1 @ n2" and s2: "subseq n2 (text_candidates (get_text p))" and
    k2: "\<forall>u\<in>set n2. confirmed env w1 w2 u" unfolding text_candidates_def by blast
  from "2.IH" [OF c1 [symmetric] c2 [symmetric] run] obtain n3 where
    f3: "files w' = files w2" and r3: "requests w2 \<le> requests w'" and
    a3: "acc' = links2 @ n3" and s3: "subseq n3 (doc_candidates ps)" and
    k3: "\<forall>u\<in>set n3. confirmed env w2 w' u" by blast
  have "subseq (n1 @ n2) (page_candidates p)"
    unfolding page_candidates_def using s1 s2 by (rule list_emb_append_mono)
  then have "subseq ((n1 @ n2) @ n3) (page_candidates p @ doc_candidates ps)"
    using s3 by (rule list_emb_append_mono)
  then have s: "subseq (n1 @ n2 @ n3) (doc_candidates (p # ps))"
    by (simp add: doc_candidates_def)
  have k: "\<forall>u\<in>set (n1 @ n2 @ n3). confirmed env w w' u"
    using k1 k2 k3 r1 r2 r3 by (auto intro: confirmed_mono)
  have "acc' = editorial_links @ (n1 @ n2 @ n3)" using a1 a2 a3 by simp
  with s k f1 f2 f3 r1 r2 r3 show ?case by (metis le_trans)
qed

lemma extract_result:
  "extract_editorial_links_from_pdf env w pdf_path = (Inr ls, w') \<Longrightarrow>
   files w' = files w \<and>
   (\<exists>data doc. files w pdf_path = Some data \<and> fitz_open env data = Some doc \<and>
      subseq ls (doc_candidates doc) \<and> (\<forall>u\<in>set ls. confirmed env w w' u))"
  unfolding extract_editorial_links_from_pdf_def
  by (auto split: option.splits prod.splits dest!: scan_pages_result)

lemma extract_error:
  "extract_editorial_links_from_pdf env w pdf_path = (Inl e, w') \<Longrightarrow> w' = w"
  unfolding extract_editorial_links_from_pdf_def
  by (auto split: option.splits prod.splits)

lemma extract_total:
  "files w pdf_path = Some data \<Longrightarrow> fitz_open env data \<noteq> None \<Longrightarrow>
   \<exists>ls w'. extract_editorial_links_from_pdf env w pdf_path = (Inr ls, w')"
  unfolding extract_editorial_links_from_pdf_def
  by (auto split: option.splits prod.splits)








lemma doc_candidates_origin:
  "u \<in> set (doc_candidates doc) \<Longrightarrow>
   u \<in> set (concat (map (\<lambda>p. uris (get_links p)) doc)) \<or>
   (str_contains (lit ''123rf'') u \<and> u \<in> set (concat (map (\<lambda>p. findall_url (get_text p)) doc)))"
  by (auto simp: doc_candidates_def page_candidates_def text_candidates_def)

text \<open>
  Claim C5, as amended. Every link that \<open>extract_editorial_links_from_pdf\<close> returns
  was confirmed by the classifier during the call, and it is either the target of an
  embedded hyperlink of some page, which is not filtered by host, or a plain-text URL
  match of some page that contains \<open>123rf\<close>; a plain-text match without the substring
  is never returned on that account.
\<close>

theorem extracted_links_origin:
  "extract_editorial_links_from_pdf env w pdf_path = (Inr ls, w') \<Longrightarrow>
   \<exists>data doc. files w pdf_path = Some data \<and> fitz_open env data = Some doc \<and>
     (\<forall>u\<in>set ls. confirmed env w w' u \<and>
        (u \<in> set (concat (map (\<lambda>p. uris (get_links p)) doc)) \<or>
         (str_contains (lit ''123rf'') u \<and>
          u \<in> set (concat (map (\<lambda>p. findall_url (get_text p)) doc)))))"
proof -
  assume run: "extract_editorial_links_from_pdf env w pdf_path = (Inr ls, w')"
  from extract_result [OF run] obtain data doc where
    d: "files w pdf_path = Some data" "fitz_open env data = Some doc" and
    s: "subseq ls (doc_candidates doc)" and k: "\<forall>u\<in>set ls. confirmed env w w' u" by blast
  have "u \<in> set (doc_candidates doc)" if "u \<in> set ls" for u
    using list_emb_set [OF s that] by blast
  with d k show ?thesis by (blast dest: doc_candidates_origin)
qed

lemma extract_text_doc:
  "extract_editorial_links_from_pdf env_text world1 (lit ''a.pdf'')
     = (Inr [lit ''https://www.123rf.com/photo_1.html''],
        \<lparr>requests = 1, files = [lit ''a.pdf'' \<mapsto> [1, 2, 3]]\<rparr>)"
  by (simp add: extract_editorial_links_from_pdf_def env_text_def text_doc_def world1_def
      check_editorial_use_def scheme_len_def env_defs string_defs)

text \<open>The amended claim C5 on a page whose text holds one \<open>123rf\<close> URL and one other URL.\<close>

theorem extracted_links_origin_witness:
  "extract_editorial_links_from_pdf env_text world1 (lit ''a.pdf'')
     = (Inr [lit ''https://www.123rf.com/photo_1.html''],
        \<lparr>requests = 1, files = [lit ''a.pdf'' \<mapsto> [1, 2, 3]]\<rparr>) \<and>
   str_contains (lit ''123rf'') (lit ''https://www.123rf.com/photo_1.html'')"
  using extracted_links_origin [OF extract_text_doc] extract_text_doc
  by (simp add: env_text_def text_doc_def env_defs lit_def)

text \<open>
  Claim C5 as stated fails on a page with an embedded link to another host: the link is
  returned although it does not contain \<open>123rf\<close>.
\<close>

theorem embedded_link_counterexample:
  "fst (extract_editorial_links_from_pdf env_ok world1 (lit ''a.pdf'')) = Inr [photo_url] \<and>
   \<not> str_contains (lit ''123rf'') photo_url"
  by (simp add: extract_editorial_links_from_pdf_def one_link_doc_def world1_def photo_url_def
      check_editorial_use_def env_defs string_defs)

section \<open>Properties of the row step\<close>

lemma report_links_replicate: "report_links r ls rs = rs @ replicate (length ls) r"
  by (induction ls arbitrary: rs) (simp_all add: replicate_app_Cons_same)

lemma re_search_file_id_nonempty: "re_search_file_id s = Some f \<Longrightarrow> f \<noteq> []"
  by (induction s) (auto split: if_splits)

lemma extract_file_id_nonempty: "extract_file_id v = Some f \<Longrightarrow> f \<noteq> []"
  by (auto simp: extract_file_id_def split: if_splits dest: re_search_file_id_nonempty)

lemma download_pdf_file:
  "download_pdf env w file_id file_name max_retries = (Inr (Some p), w1) \<Longrightarrow>
   p \<noteq> [] \<and> files w1 p \<noteq> None"
  using download_loop_success [of env "export_url file_id"
      "sanitize_filename file_name @ lit ''.pdf''" max_retries 0 w p w1]
  by (auto simp: download_pdf_def lit_def)





lemma process_row_raises:
  "\<not> isna (doc_url r) \<Longrightarrow> \<not> isna (website_url r) \<Longrightarrow>
   extract_file_id (Str (py_str (doc_url r))) = Some file_id \<Longrightarrow>
   download_pdf env w file_id (Str (sanitize_filename (website_url r))) default_max_retries
     = (Inr (Some pdf_file), w1) \<Longrightarrow>
   extract_editorial_links_from_pdf env w1 pdf_file = (Inl e, w2) \<Longrightarrow>
   process_row env st w r = (Inl e, w2)"
  by (frule extract_file_id_nonempty, frule download_pdf_file)
     (simp add: process_row_def Let_def)

lemma process_row_returns:
  "\<not> isna (doc_url r) \<Longrightarrow> \<not> isna (website_url r) \<Longrightarrow>
   extract_file_id (Str (py_str (doc_url r))) = Some file_id \<Longrightarrow>
   download_pdf env w file_id (Str (sanitize_filename (website_url r))) default_max_retries
     = (Inr (Some pdf_file), w1) \<Longrightarrow>
   extract_editorial_links_from_pdf env w1 pdf_file = (Inr ls, w2) \<Longrightarrow>
   process_row env st w r = (Inr (emit st r ls), w2\<lparr>files := (files w2)(pdf_file := None)\<rparr>)"
proof -
  assume a: "\<not> isna (doc_url r)" "\<not> isna (website_url r)"
    and i: "extract_file_id (Str (py_str (doc_url r))) = Some file_id"
    and d: "download_pdf env w file_id (Str (sanitize_filename (website_url r)))
              default_max_retries = (Inr (Some pdf_file), w1)"
    and x: "extract_editorial_links_from_pdf env w1 pdf_file = (Inr ls, w2)"
  from i have f: "file_id \<noteq> []" by (rule extract_file_id_nonempty)
  from download_pdf_file [OF d] have p: "pdf_file \<noteq> []" and e: "files w1 pdf_file \<noteq> None"
    by simp_all
  from extract_result [OF x] have "files w2 = files w1" by simp
  with e have rm: "os_remove w2 pdf_file = Inr (w2\<lparr>files := (files w2)(pdf_file := None)\<rparr>)"
    by (simp add: os_remove_def)
  show ?thesis
    using a i f d p x rm
    by (simp add: process_row_def Let_def emit_def display_title_def report_links_replicate
        replicate_append_same)
qed

lemma process_row_stale:
  "isna (doc_url r) \<or> isna (website_url r) \<Longrightarrow>
   process_row env st w r =
     (case formatted_title st of
        None \<Rightarrow> (Inl UnboundLocalError, w)
      | Some t \<Rightarrow>
          (case editorial_links st of
             None \<Rightarrow> (Inl UnboundLocalError, w)
           | Some ls \<Rightarrow> (Inr (st\<lparr>results := results st @ [\<lparr>title = t, links = ls\<rparr>]\<rparr>), w)))"
  by (simp add: process_row_def)








section \<open>Completion of the run\<close>








section \<open>Removal of the document file\<close>

text \<open>
  Claim C4, as amended. For a row whose fetch succeeds the file exists when extraction
  starts. When extraction returns, with links or with the empty list, the row step ends
  in a state where the file has been deleted. When extraction raises, the exception
  leaves the row step before \<open>os.remove\<close> is reached and the file is still there.
\<close>

theorem pdf_removed_when_extraction_returns:
  assumes "\<not> isna (doc_url r)" and "\<not> isna (website_url r)"
    and "extract_file_id (Str (py_str (doc_url r))) = Some file_id"
    and "download_pdf env w file_id (Str (sanitize_filename (website_url r)))
           default_max_retries = (Inr (Some pdf_file), w1)"
  shows "files w1 pdf_file \<noteq> None \<and>
    (\<forall>ls w2. extract_editorial_links_from_pdf env w1 pdf_file = (Inr ls, w2) \<longrightarrow>
       (\<exists>st'. process_row env st w r
                = (Inr st', w2\<lparr>files := (files w2)(pdf_file := None)\<rparr>))) \<and>
    (\<forall>e w2. extract_editorial_links_from_pdf env w1 pdf_file = (Inl e, w2) \<longrightarrow>
       process_row env st w r = (Inl e, w2) \<and> files w2 pdf_file \<noteq> None)"
proof (intro conjI allI impI)
  from download_pdf_file [OF assms(4)] show f: "files w1 pdf_file \<noteq> None" by simp
  fix e w2
  assume x: "extract_editorial_links_from_pdf env w1 pdf_file = (Inl e, w2)"
  from process_row_raises [OF assms x] show "process_row env st w r = (Inl e, w2)" .
  from extract_error [OF x] f show "files w2 pdf_file \<noteq> None" by simp
next
  fix ls w2
  assume x: "extract_editorial_links_from_pdf env w1 pdf_file = (Inr ls, w2)"
  from process_row_returns [OF assms x]
  show "\<exists>st'. process_row env st w r = (Inr st', w2\<lparr>files := (files w2)(pdf_file := None)\<rparr>)"
    by blast
qed

section \<open>Order of the output\<close>

























section \<open>Concrete runs\<close>





lemma download_pdf_first_200:
  "http_get env (requests w) (export_url file_id) = Response 200 body \<Longrightarrow>
   fs_writable env (sanitize_filename file_name @ lit ''.pdf'') \<Longrightarrow>
   download_pdf env w file_id file_name default_max_retries
     = (Inr (Some (sanitize_filename file_name @ lit ''.pdf'')),
        w\<lparr>requests := requests w + 1,
          files := (files w)(sanitize_filename file_name @ lit ''.pdf'' \<mapsto> body)\<rparr>)"
  by (simp add: download_pdf_def download_loop.simps default_max_retries_def)




lemma frame_ok:
  "process_google_docs_from_excel env w (frame rs) =
     (case process_rows env initial_locals w rs of
        (Inl e, w1) \<Rightarrow> (Inl e, w1)
      | (Inr st, w1) \<Rightarrow> (Inr (Some (results st)), w1))"
  by (simp add: process_google_docs_from_excel_def frame_def)

subsection \<open>The qualifying row of the first environments\<close>

lemma good_row_present: "\<not> isna (doc_url good_row)" "\<not> isna (website_url good_row)"
  by (simp_all add: good_row_def)

lemma good_row_id:
  "extract_file_id (Str (py_str (doc_url good_row))) = Some (lit ''ABC123'')"
  by (simp add: good_row_def extract_file_id_def doc_prefix_def id_char_def lit_def)

lemma good_row_name: "sanitize_filename (website_url good_row) = lit ''site.example_page''"
  by (simp add: good_row_def string_defs)

lemma good_row_pdf:
  "sanitize_filename (Str (lit ''site.example_page'')) @ lit ''.pdf''
     = lit ''site.example_page.pdf''"
  by (simp add: string_defs)

lemma good_row_title: "display_title good_row = lit ''site.example/page''"
  by (simp add: display_title_def good_row_name) (simp add: string_defs)

lemma good_row_download:
  "http_get env = (\<lambda>n url. Response 200 [1, 2, 3]) \<Longrightarrow> fs_writable env = (\<lambda>name. True) \<Longrightarrow>
   download_pdf env \<lparr>requests = n, files = Map.empty\<rparr> (lit ''ABC123'')
       (Str (sanitize_filename (website_url good_row))) default_max_retries
     = (Inr (Some (lit ''site.example_page.pdf'')),
        \<lparr>requests = n + 1, files = [lit ''site.example_page.pdf'' \<mapsto> [1, 2, 3]]\<rparr>)"
  unfolding good_row_name
  using download_pdf_first_200 [where env = env and w = "\<lparr>requests = n, files = Map.empty\<rparr>"
      and file_id = "lit ''ABC123''" and file_name = "Str (lit ''site.example_page'')"
      and body = "[1, 2, 3]"]
  unfolding good_row_pdf by simp

lemma extract_one_link_doc:
  "files w pdf_path = Some data \<Longrightarrow>
   extract_editorial_links_from_pdf env_ok w pdf_path
     = (Inr [photo_url], w\<lparr>requests := requests w + 1\<rparr>)"
  by (simp add: extract_editorial_links_from_pdf_def env_ok_def one_link_doc_def
      check_editorial_use_def lit_def)

lemma extract_corrupt:
  "files w pdf_path = Some data \<Longrightarrow>
   extract_editorial_links_from_pdf env_corrupt w pdf_path = (Inl FileDataError, w)"
  by (simp add: extract_editorial_links_from_pdf_def env_corrupt_def env_ok_def)

lemma good_row_step:
  "process_row env_ok st \<lparr>requests = n, files = Map.empty\<rparr> good_row
     = (Inr (st\<lparr>results := results st @ replicate 3 good_record,
               formatted_title := Some (lit ''site.example/page''),
               editorial_links := Some [photo_url]\<rparr>),
        \<lparr>requests = n + 2, files = Map.empty\<rparr>)"
proof -
  have d: "download_pdf env_ok \<lparr>requests = n, files = Map.empty\<rparr> (lit ''ABC123'')
             (Str (sanitize_filename (website_url good_row))) default_max_retries
     = (Inr (Some (lit ''site.example_page.pdf'')),
        \<lparr>requests = n + 1, files = [lit ''site.example_page.pdf'' \<mapsto> [1, 2, 3]]\<rparr>)"
    by (rule good_row_download) (simp_all add: env_ok_def)
  have x: "extract_editorial_links_from_pdf env_ok
             \<lparr>requests = n + 1, files = [lit ''site.example_page.pdf'' \<mapsto> [1, 2, 3]]\<rparr>
             (lit ''site.example_page.pdf'')
     = (Inr [photo_url],
        \<lparr>requests = n + 2, files = [lit ''site.example_page.pdf'' \<mapsto> [1, 2, 3]]\<rparr>)"
    by (subst extract_one_link_doc [where data = "[1, 2, 3]"]) simp_all
  show ?thesis
    by (simp add: process_row_returns [OF good_row_present good_row_id d x] emit_def
        good_row_title good_record_def numeral_3_eq_3)
qed

lemma corrupt_row_step:
  "process_row env_corrupt st \<lparr>requests = n, files = Map.empty\<rparr> good_row
     = (Inl FileDataError,
        \<lparr>requests = n + 1, files = [lit ''site.example_page.pdf'' \<mapsto> [1, 2, 3]]\<rparr>)"
proof -
  have d: "download_pdf env_corrupt \<lparr>requests = n, files = Map.empty\<rparr> (lit ''ABC123'')
             (Str (sanitize_filename (website_url good_row))) default_max_retries
     = (Inr (Some (lit ''site.example_page.pdf'')),
        \<lparr>requests = n + 1, files = [lit ''site.example_page.pdf'' \<mapsto> [1, 2, 3]]\<rparr>)"
    by (rule good_row_download) (simp_all add: env_corrupt_def env_ok_def)
  have x: "extract_editorial_links_from_pdf env_corrupt
             \<lparr>requests = n + 1, files = [lit ''site.example_page.pdf'' \<mapsto> [1, 2, 3]]\<rparr>
             (lit ''site.example_page.pdf'')
     = (Inl FileDataError,
        \<lparr>requests = n + 1, files = [lit ''site.example_page.pdf'' \<mapsto> [1, 2, 3]]\<rparr>)"
    by (subst extract_corrupt [where data = "[1, 2, 3]"]) simp_all
  show ?thesis by (rule process_row_raises [OF good_row_present good_row_id d x])
qed

lemma run_good_row:
  "process_google_docs_from_excel env_ok world0 (frame [good_row])
     = (Inr (Some (replicate 3 good_record)), \<lparr>requests = 2, files = Map.empty\<rparr>)"
  using good_row_step [of initial_locals 0]
  by (simp add: frame_ok world0_def initial_locals_def)

lemma run_empty_row:
  "process_google_docs_from_excel env_ok world0 (frame [empty_row])
     = (Inl UnboundLocalError, world0)"
  by (simp add: frame_ok process_row_stale empty_row_def initial_locals_def)

lemma run_good_empty_row:
  "process_google_docs_from_excel env_ok world0 (frame [good_row, empty_row])
     = (Inr (Some (replicate 4 good_record)), \<lparr>requests = 2, files = Map.empty\<rparr>)"
  using good_row_step [of initial_locals 0]
  by (simp add: frame_ok world0_def initial_locals_def process_row_stale empty_row_def
      good_record_def numeral_3_eq_3 eval_nat_numeral)


subsection \<open>The five rows of the site environment\<close>



lemma site_names:
  "sanitize_filename (website_url row_a) = lit ''a.example_x''"
  "sanitize_filename (website_url row_c) = lit ''c.example_y''"
  by (simp_all add: row_a_def row_c_def string_defs)


lemma site_titles:
  "display_title row_a = lit ''a.example/x''"
  "display_title row_c = lit ''c.example/y''"
  by (simp_all add: display_title_def site_names) (simp_all add: string_defs)

lemma site_title_column:
  "map display_title site_rows
     = [lit ''a.example/x'', lit ''b.example'', lit ''g.example'', lit ''d.example'',
        lit ''c.example/y'']"
  by (simp add: site_rows_def site_titles)
     (simp add: display_title_def row_bad_def row_gone_def row_down_def string_defs)

























lemma corrupt_download:
  "download_pdf env_corrupt \<lparr>requests = n, files = Map.empty\<rparr> (lit ''ABC123'')
     (Str (sanitize_filename (website_url good_row))) default_max_retries
     = (Inr (Some (lit ''site.example_page.pdf'')),
        \<lparr>requests = n + 1, files = [lit ''site.example_page.pdf'' \<mapsto> [1, 2, 3]]\<rparr>)"
  by (rule good_row_download) (simp_all add: env_corrupt_def env_ok_def)

lemma ok_download:
  "download_pdf env_ok \<lparr>requests = n, files = Map.empty\<rparr> (lit ''ABC123'')
     (Str (sanitize_filename (website_url good_row))) default_max_retries
     = (Inr (Some (lit ''site.example_page.pdf'')),
        \<lparr>requests = n + 1, files = [lit ''site.example_page.pdf'' \<mapsto> [1, 2, 3]]\<rparr>)"
  by (rule good_row_download) (simp_all add: env_ok_def)


section \<open>The claims on concrete runs\<close>



text \<open>The amended claim C4 on a document that opens and on one that does not.\<close>

theorem pdf_removed_when_extraction_returns_witness:
  "(\<exists>st'. process_row env_ok initial_locals world0 good_row
            = (Inr st', \<lparr>requests = 2, files = Map.empty\<rparr>)) \<and>
   process_row env_corrupt initial_locals world0 good_row
     = (Inl FileDataError,
        \<lparr>requests = 1, files = [lit ''site.example_page.pdf'' \<mapsto> [1, 2, 3]]\<rparr>)"
proof -
  have d1: "download_pdf env_ok world0 (lit ''ABC123'')
      (Str (sanitize_filename (website_url good_row))) default_max_retries
     = (Inr (Some (lit ''site.example_page.pdf'')),
        \<lparr>requests = 1, files = [lit ''site.example_page.pdf'' \<mapsto> [1, 2, 3]]\<rparr>)"
    using ok_download [of 0] by (simp add: world0_def)
  have d2: "download_pdf env_corrupt world0 (lit ''ABC123'')
      (Str (sanitize_filename (website_url good_row))) default_max_retries
     = (Inr (Some (lit ''site.example_page.pdf'')),
        \<lparr>requests = 1, files = [lit ''site.example_page.pdf'' \<mapsto> [1, 2, 3]]\<rparr>)"
    using corrupt_download [of 0] by (simp add: world0_def)
  have x1: "extract_editorial_links_from_pdf env_ok
      \<lparr>requests = 1, files = [lit ''site.example_page.pdf'' \<mapsto> [1, 2, 3]]\<rparr>
      (lit ''site.example_page.pdf'')
     = (Inr [photo_url],
        \<lparr>requests = 2, files = [lit ''site.example_page.pdf'' \<mapsto> [1, 2, 3]]\<rparr>)"
    by (subst extract_one_link_doc [where data = "[1, 2, 3]"]) simp_all
  have x2: "extract_editorial_links_from_pdf env_corrupt
      \<lparr>requests = 1, files = [lit ''site.example_page.pdf'' \<mapsto> [1, 2, 3]]\<rparr>
      (lit ''site.example_page.pdf'')
     = (Inl FileDataError,
        \<lparr>requests = 1, files = [lit ''site.example_page.pdf'' \<mapsto> [1, 2, 3]]\<rparr>)"
    by (subst extract_corrupt [where data = "[1, 2, 3]"]) simp_all
  from pdf_removed_when_extraction_returns [OF good_row_present good_row_id d1,
      of initial_locals] x1
  have a: "\<exists>st'. process_row env_ok initial_locals world0 good_row
            = (Inr st', \<lparr>requests = 2, files = Map.empty\<rparr>)"
    by simp
  from pdf_removed_when_extraction_returns [OF good_row_present good_row_id d2,
      of initial_locals] x2
  have b: "process_row env_corrupt initial_locals world0 good_row
     = (Inl FileDataError,
        \<lparr>requests = 1, files = [lit ''site.example_page.pdf'' \<mapsto> [1, 2, 3]]\<rparr>)"
    by simp
  from a b show ?thesis ..
qed

text \<open>
  Claim C4 as stated fails on the path where extraction raises: the row step ends with the
  exception and the downloaded file is still in the working directory.
\<close>

theorem pdf_left_behind_counterexample:
  "fst (process_row env_corrupt initial_locals world0 good_row) = Inl FileDataError \<and>
   files (snd (process_row env_corrupt initial_locals world0 good_row))
     (lit ''site.example_page.pdf'') = Some [1, 2, 3]"
  using corrupt_row_step [of initial_locals 0] by (simp add: world0_def)




text \<open>
  Claim C1 against the code: a single qualifying row with one confirmed link puts three
  copies of its record into the result list, not one.
\<close>

theorem qualifying_row_appended_three_times:
  "fst (process_google_docs_from_excel env_ok world0 (frame [good_row]))
     = Inr (Some [good_record, good_record, good_record])"
  by (simp add: run_good_row numeral_3_eq_3)

text \<open>Claim C1 against the code: the output is not the single record the claim asks for.\<close>

theorem qualifying_row_appended_three_times_witness:
  "fst (process_google_docs_from_excel env_ok world0 (frame [good_row]))
     \<noteq> Inr (Some [good_record])"
  using qualifying_row_appended_three_times by simp

text \<open>
  Claim C2 against the code: a row with a missing field as the first row ends the run
  with \<open>UnboundLocalError\<close>; behind a qualifying row it appends one more copy of that
  row's record.
\<close>

theorem missing_row_not_skipped:
  "fst (process_google_docs_from_excel env_ok world0 (frame [empty_row]))
     = Inl UnboundLocalError \<and>
   fst (process_google_docs_from_excel env_ok world0 (frame [good_row]))
     = Inr (Some (replicate 3 good_record)) \<and>
   fst (process_google_docs_from_excel env_ok world0 (frame [good_row, empty_row]))
     = Inr (Some (replicate 3 good_record @ [good_record]))"
  by (simp add: run_empty_row run_good_row run_good_empty_row eval_nat_numeral)

text \<open>Claim C2 against the code: the run over the frame that holds only the row with the
  missing field does not return the empty result list.\<close>

theorem missing_row_not_skipped_witness:
  "fst (process_google_docs_from_excel env_ok world0 (frame [empty_row])) \<noteq> Inr (Some [])"
  using missing_row_not_skipped by simp

end
